theory Spec2Isabelle
  imports Main
begin

section \<open>Author-name utilities of X-Risk-Rank (src/utils.py)\<close>

text \<open>
  The module has three functions: \<open>extract_authors\<close> (the Extractor),
  \<open>clean_author_names\<close> (the Normalizer) and \<open>create_author_count_dataframe\<close>
  (the Aggregator). Each is embedded below as a HOL function that follows the Python
  statement by statement. An exception that leaves a function is the value \<open>Inl e\<close>;
  what \<open>print\<close> writes is collected, line by line, in the field \<open>stdout\<close>.

  Scope of the character model: a Python \<open>str\<close> is a \<open>string\<close>, a list of 8-bit
  characters read as the code points U+0000 to U+00FF (Latin-1); a string with a
  code point beyond U+00FF has no counterpart. On this range the whitespace of
  \<open>str.split()\<close> and the mapping of \<open>str.lower()\<close> are modelled in full, and so are
  \<open>str.upper()\<close> and \<open>str.capitalize()\<close> but for two characters: the upper-case
  forms of U+00B5 (micro sign) and U+00FF (y with diaeresis) are U+039C and U+0178,
  which no 8-bit character holds. The model leaves these two unchanged, and every
  general result below that depends on upper-casing assumes keys of ASCII characters.
\<close>

subsection \<open>Python values and exceptions\<close>

text \<open>
  An entry of the author list is either a \<open>str\<close> or a value that has no \<open>split\<close>
  attribute: \<open>None\<close>, or the float \<open>nan\<close> that pandas puts in a missing cell.
\<close>

datatype pyval = PyStr string | PyNone | PyNaN

text \<open>The two exceptions the module handles; each carries the message \<open>print(e)\<close> shows.\<close>

datatype exn = AttributeError string | IndexError string

definition exn_message :: "exn \<Rightarrow> string" where
  "exn_message e = (case e of AttributeError m \<Rightarrow> m | IndexError m \<Rightarrow> m)"

text \<open>Sequencing of computations that may raise.\<close>

definition exn_bind :: "exn + 'a \<Rightarrow> ('a \<Rightarrow> exn + 'b) \<Rightarrow> exn + 'b" where
  "exn_bind m f = (case m of Inl e \<Rightarrow> Inl e | Inr x \<Rightarrow> f x)"

subsection \<open>Built-in string methods\<close>

text \<open>
  The whitespace of \<open>str.split()\<close> and \<open>str.isspace()\<close> up to U+00FF: tab, line
  feed, vertical tab, form feed, carriage return, the separators U+001C to U+001F,
  the space, the next-line control U+0085 and the no-break space U+00A0.
\<close>

definition is_space :: "char \<Rightarrow> bool" where
  "is_space c = (c \<in> set [CHR 0x09, CHR 0x0A, CHR 0x0B, CHR 0x0C, CHR 0x0D,
                            CHR 0x1C, CHR 0x1D, CHR 0x1E, CHR 0x1F, CHR '' '',
                            CHR 0x85, CHR 0xA0])"

text \<open>
  The cased letters up to U+00FF: A-Z and a-z, and the Latin-1 letters U+00C0 to
  U+00DE (without the multiplication sign U+00D7) with their lower-case forms U+00E0
  to U+00FE (without the division sign U+00F7).
\<close>

definition ascii_uppercase :: string where
  "ascii_uppercase = ''ABCDEFGHIJKLMNOPQRSTUVWXYZ''"

definition ascii_lowercase :: string where
  "ascii_lowercase = ''abcdefghijklmnopqrstuvwxyz''"

definition latin1_uppercase :: string where
  "latin1_uppercase =
     [CHR 0xC0, CHR 0xC1, CHR 0xC2, CHR 0xC3, CHR 0xC4, CHR 0xC5, CHR 0xC6, CHR 0xC7,
      CHR 0xC8, CHR 0xC9, CHR 0xCA, CHR 0xCB, CHR 0xCC, CHR 0xCD, CHR 0xCE, CHR 0xCF,
      CHR 0xD0, CHR 0xD1, CHR 0xD2, CHR 0xD3, CHR 0xD4, CHR 0xD5, CHR 0xD6,
      CHR 0xD8, CHR 0xD9, CHR 0xDA, CHR 0xDB, CHR 0xDC, CHR 0xDD, CHR 0xDE]"

definition latin1_lowercase :: string where
  "latin1_lowercase =
     [CHR 0xE0, CHR 0xE1, CHR 0xE2, CHR 0xE3, CHR 0xE4, CHR 0xE5, CHR 0xE6, CHR 0xE7,
      CHR 0xE8, CHR 0xE9, CHR 0xEA, CHR 0xEB, CHR 0xEC, CHR 0xED, CHR 0xEE, CHR 0xEF,
      CHR 0xF0, CHR 0xF1, CHR 0xF2, CHR 0xF3, CHR 0xF4, CHR 0xF5, CHR 0xF6,
      CHR 0xF8, CHR 0xF9, CHR 0xFA, CHR 0xFB, CHR 0xFC, CHR 0xFD, CHR 0xFE]"

definition lower_char :: "char \<Rightarrow> char" where
  "lower_char c =
     (case map_of (zip (ascii_uppercase @ latin1_uppercase)
                       (ascii_lowercase @ latin1_lowercase)) c of
        Some d \<Rightarrow> d | None \<Rightarrow> c)"

definition upper_char :: "char \<Rightarrow> char" where
  "upper_char c =
     (case map_of (zip (ascii_lowercase @ latin1_lowercase)
                       (ascii_uppercase @ latin1_uppercase)) c of
        Some d \<Rightarrow> d | None \<Rightarrow> c)"

text \<open>
  The sharp s U+00DF is in lower case and has no upper-case letter of its own:
  \<open>str.upper()\<close> writes it \<open>SS\<close>, and \<open>str.capitalize()\<close>, which puts the first
  character in title case (Python 3.8 and later), writes it \<open>Ss\<close>. Every other
  character up to U+00FF has one character as its upper-case and title-case form.
\<close>

definition upper_chars :: "char \<Rightarrow> string" where
  "upper_chars c = (if c = CHR 0xDF then ''SS'' else [upper_char c])"

definition title_chars :: "char \<Rightarrow> string" where
  "title_chars c = (if c = CHR 0xDF then ''Ss'' else [upper_char c])"

text \<open>\<open>s.lower()\<close>, \<open>s.upper()\<close>, \<open>s.capitalize()\<close> and \<open>s.replace(' ', '')\<close>.\<close>

definition str_lower :: "string \<Rightarrow> string" where
  "str_lower s = map lower_char s"

definition str_upper :: "string \<Rightarrow> string" where
  "str_upper s = concat (map upper_chars s)"

definition str_capitalize :: "string \<Rightarrow> string" where
  "str_capitalize s = (case s of [] \<Rightarrow> [] | c # cs \<Rightarrow> title_chars c @ map lower_char cs)"

definition str_remove_spaces :: "string \<Rightarrow> string" where
  "str_remove_spaces s = filter (\<lambda>c. c \<noteq> CHR '' '') s"

text \<open>
  \<open>s.split()\<close> with no argument: the maximal runs of non-whitespace characters, in
  order. \<open>cur\<close> is the token being read.
\<close>

fun split_ws :: "string \<Rightarrow> string \<Rightarrow> string list" where
  "split_ws cur [] = (if cur = [] then [] else [cur])"
| "split_ws cur (c # cs) =
     (if is_space c then (if cur = [] then split_ws [] cs else cur # split_ws [] cs)
      else split_ws (cur @ [c]) cs)"

definition str_split :: "string \<Rightarrow> string list" where
  "str_split s = split_ws [] s"

text \<open>
  \<open>s.split(sep)\<close> for a non-empty separator: scanning from the left, every
  occurrence of \<open>sep\<close> ends a piece and the scan goes on behind it. \<open>s.count(sub)\<close>
  counts the same non-overlapping occurrences.
\<close>

function split_sep :: "string \<Rightarrow> string \<Rightarrow> string \<Rightarrow> string list" where
  "split_sep sep cur s =
     (if s = [] then [cur]
      else if sep \<noteq> [] \<and> take (length sep) s = sep
           then cur # split_sep sep [] (drop (length sep) s)
      else split_sep sep (cur @ [hd s]) (tl s))"
  by pat_completeness auto
termination
  by (relation "measure (\<lambda>(sep, cur, s). length s)") auto

declare split_sep.simps [simp del]

function str_count :: "string \<Rightarrow> string \<Rightarrow> nat" where
  "str_count sub s =
     (if s = [] then 0
      else if sub \<noteq> [] \<and> take (length sub) s = sub
           then Suc (str_count sub (drop (length sub) s))
      else str_count sub (tl s))"
  by pat_completeness auto
termination
  by (relation "measure (\<lambda>(sub, s). length s)") auto

declare str_count.simps [simp del]

text \<open>
  Indexing. \<open>xs[i]\<close> on a list and \<open>s[i]\<close> on a string raise IndexError out of range
  (the module only uses the indices 0 and 1); \<open>s[-1]\<close> is the last character, and
  raises on the empty string; the slice \<open>s[0:-1]\<close> never raises.
\<close>

definition list_getitem :: "'a list \<Rightarrow> nat \<Rightarrow> exn + 'a" where
  "list_getitem xs i =
     (if i < length xs then Inr (xs ! i) else Inl (IndexError ''list index out of range''))"

definition str_getitem :: "string \<Rightarrow> nat \<Rightarrow> exn + string" where
  "str_getitem s i =
     (if i < length s then Inr [s ! i] else Inl (IndexError ''string index out of range''))"

definition str_getitem_last :: "string \<Rightarrow> exn + string" where
  "str_getitem_last s =
     (if s = [] then Inl (IndexError ''string index out of range'') else Inr [last s])"

definition str_slice_butlast :: "string \<Rightarrow> string" where
  "str_slice_butlast s = butlast s"

text \<open>
  \<open>name.split()\<close> on an entry of the author list: the attribute lookup fails on a
  value that is not a string. \<open>py_format\<close> is the text of \<open>{name}\<close> in an f-string.
\<close>

definition no_attribute :: "string \<Rightarrow> string \<Rightarrow> string" where
  "no_attribute ty attr =
     [CHR 0x27] @ ty @ [CHR 0x27] @ '' object has no attribute '' @ [CHR 0x27] @ attr @ [CHR 0x27]"

definition py_split :: "pyval \<Rightarrow> exn + string list" where
  "py_split v =
     (case v of
        PyStr s \<Rightarrow> Inr (str_split s)
      | PyNone \<Rightarrow> Inl (AttributeError (no_attribute ''NoneType'' ''split''))
      | PyNaN \<Rightarrow> Inl (AttributeError (no_attribute ''float'' ''split'')))"

definition py_format :: "pyval \<Rightarrow> string" where
  "py_format v = (case v of PyStr s \<Rightarrow> s | PyNone \<Rightarrow> ''None'' | PyNaN \<Rightarrow> ''nan'')"

subsection \<open>\<open>extract_authors\<close>\<close>

text \<open>
  The data frame the Extractor reads, with its column of author fields. The function
  is \<open>df['Authors'].str.split(', ').explode().tolist()\<close>: every field is split on
  the delimiter, and \<open>explode\<close> lays the lists of pieces out one after the other
  (a list with no element would become one missing value; a split never returns one).
\<close>

record authors_frame =
  Authors :: "string list"

definition series_str_split :: "string \<Rightarrow> string list \<Rightarrow> string list list" where
  "series_str_split sep col = map (split_sep sep []) col"

definition explode :: "string list list \<Rightarrow> string list" where
  "explode cells = concat cells"

definition extract_authors :: "authors_frame \<Rightarrow> string list" where
  "extract_authors df = (let authors_list = explode (series_str_split '', '' (Authors df))
                         in authors_list)"

subsection \<open>\<open>clean_author_names\<close>\<close>

text \<open>
  The state of the loop: the list built so far and the lines printed so far.
\<close>

record norm_state =
  cleaned_authors :: "string list"
  stdout :: "string list"

text \<open>
  The body of the \<open>try\<close> block (lines 47-50), for one name: the cleaned name, or the
  exception raised on the way.
\<close>

definition try_body :: "pyval \<Rightarrow> exn + string" where
  "try_body name =
     exn_bind (py_split name) (\<lambda>toks.
     exn_bind (list_getitem toks 0) (\<lambda>last_name.
     exn_bind (py_split name) (\<lambda>toks'.
     exn_bind (list_getitem toks' 1) (\<lambda>second.
     exn_bind (str_getitem second 0) (\<lambda>first_initial.
       let cleaned = last_name @ first_initial;
           cleaned = str_remove_spaces (str_lower cleaned)
       in Inr cleaned)))))"

text \<open>
  The two handlers print the exception and the name; \<open>break\<close> then leaves the loop
  with the state as it is.
\<close>

definition report :: "exn \<Rightarrow> pyval \<Rightarrow> norm_state \<Rightarrow> norm_state" where
  "report e name st = st\<lparr>stdout := stdout st @ [exn_message e, ''Error: '' @ py_format name]\<rparr>"

text \<open>
  The \<open>for\<close> loop (lines 42-59). The test of line 44 is evaluated before the \<open>try\<close>
  block is entered, so an exception it raises leaves the function.
\<close>

fun clean_loop :: "pyval list \<Rightarrow> norm_state \<Rightarrow> exn + norm_state" where
  "clean_loop [] st = Inr st"
| "clean_loop (name # rest) st =
     (case py_split name of
        Inl e \<Rightarrow> Inl e
      | Inr toks \<Rightarrow>
          if length toks = 1 then clean_loop rest st
          else (case try_body name of
                  Inl (AttributeError m) \<Rightarrow> Inr (report (AttributeError m) name st)
                | Inl (IndexError m) \<Rightarrow> Inr (report (IndexError m) name st)
                | Inr cleaned \<Rightarrow>
                    clean_loop rest (st\<lparr>cleaned_authors := cleaned_authors st @ [cleaned]\<rparr>)))"

definition clean_author_names :: "pyval list \<Rightarrow> exn + norm_state" where
  "clean_author_names author_list = clean_loop author_list \<lparr>cleaned_authors = [], stdout = []\<rparr>"

subsection \<open>\<open>create_author_count_dataframe\<close>\<close>

text \<open>
  A Python dict keeps its keys in insertion order, and assigning to a key that is
  present changes the value where it stands: the dict is an association list.
\<close>

type_synonym ('k, 'v) dict = "('k \<times> 'v) list"

definition dict_get :: "('k, 'v) dict \<Rightarrow> 'k \<Rightarrow> 'v \<Rightarrow> 'v" where
  "dict_get d k dflt = (case map_of d k of None \<Rightarrow> dflt | Some v \<Rightarrow> v)"

fun dict_setitem :: "('k, 'v) dict \<Rightarrow> 'k \<Rightarrow> 'v \<Rightarrow> ('k, 'v) dict" where
  "dict_setitem [] k v = [(k, v)]"
| "dict_setitem ((k', v') # d) k v =
     (if k' = k then (k, v) # d else (k', v') # dict_setitem d k v)"

text \<open>The first loop (lines 86-87).\<close>

fun count_names :: "string list \<Rightarrow> (string, int) dict \<Rightarrow> (string, int) dict" where
  "count_names [] name_counts = name_counts"
| "count_names (name # rest) name_counts =
     count_names rest (dict_setitem name_counts name (dict_get name_counts name 0 + 1))"

text \<open>
  The second loop (lines 89-91). \<open>name[-1]\<close> raises IndexError on the empty string,
  and nothing catches it.
\<close>

definition format_name :: "string \<Rightarrow> exn + string" where
  "format_name name =
     (let last_name = str_capitalize (str_slice_butlast name)
      in exn_bind (str_getitem_last name) (\<lambda>c.
           let first_initial = str_upper c
           in Inr (first_initial @ ''. '' @ last_name)))"

fun format_names :: "(string, int) dict \<Rightarrow> string list \<Rightarrow> exn + string list" where
  "format_names [] formatted_names = Inr formatted_names"
| "format_names ((name, count) # items) formatted_names =
     (case format_name name of
        Inl e \<Rightarrow> Inl e
      | Inr formatted \<Rightarrow> format_names items (formatted_names @ [formatted]))"

text \<open>The resulting table, with its two columns; row \<open>i\<close> is \<open>(Count ! i, Name ! i)\<close>.\<close>

record count_frame =
  Count :: "int list"
  Name :: "string list"


definition create_author_count_dataframe :: "string list \<Rightarrow> exn + count_frame" where
  "create_author_count_dataframe author_list =
     (let name_counts = count_names author_list []
      in case format_names name_counts [] of
           Inl e \<Rightarrow> Inl e
         | Inr formatted_names \<Rightarrow> Inr \<lparr>Count = map snd name_counts, Name = formatted_names\<rparr>)"

subsection \<open>Notions of the specification\<close>

text \<open>
  The definitions of this subsection do not come from the code: they say, in the
  words of the specification, what the functions above are compared with.

  The canonical key of a name: \<open>lowercase(tokens[0] + first character of tokens[1])\<close>,
  with the space characters removed. The well-formed names of a list are those with
  at least two whitespace-separated tokens.
\<close>

definition canonical_key :: "string \<Rightarrow> string" where
  "canonical_key name =
     (let tokens = str_split name
      in str_remove_spaces (str_lower (tokens ! 0 @ [hd (tokens ! 1)])))"

definition well_tokenised :: "string list \<Rightarrow> string list" where
  "well_tokenised names = filter (\<lambda>n. 2 \<le> length (str_split n)) names"

definition keys_of :: "string list \<Rightarrow> string list" where
  "keys_of names = map canonical_key (well_tokenised names)"



text \<open>
  What the Aggregator assumes of a key: it is not empty, has at least two characters,
  is in lower case (lowering changes nothing) and holds no space character.
\<close>

definition wellformed_key :: "string \<Rightarrow> bool" where
  "wellformed_key k = (k \<noteq> [] \<and> 2 \<le> length k \<and> str_lower k = k \<and> CHR '' '' \<notin> set k)"

text \<open>A run of the Normalizer that returned and printed a diagnostic.\<close>

definition halted_with_diagnostic :: "exn + norm_state \<Rightarrow> bool" where
  "halted_with_diagnostic res = (case res of Inl e \<Rightarrow> False | Inr st \<Rightarrow> stdout st \<noteq> [])"







text \<open>Joining pieces with a separator, \<open>sep.join(pieces)\<close>.\<close>

fun str_join :: "string \<Rightarrow> string list \<Rightarrow> string" where
  "str_join sep [] = []"
| "str_join sep [p] = p"
| "str_join sep (p # q # ps) = p @ sep @ str_join sep (q # ps)"

section \<open>Verification\<close>

subsection \<open>The Normalizer, step by step\<close>


lemma split_ws_tokens:
  "(\<forall>c\<in>set cur. \<not> is_space c) \<Longrightarrow> t \<in> set (split_ws cur s) \<Longrightarrow>
     t \<noteq> [] \<and> (\<forall>c\<in>set t. \<not> is_space c)"
proof (induction s arbitrary: cur)
  case Nil
  then show ?case by (cases "cur = []") auto
next
  case (Cons c cs)
  show ?case
  proof (cases "is_space c")
    case True
    show ?thesis
    proof (cases "cur = []")
      case True
      with \<open>is_space c\<close> Cons.prems(2) have "t \<in> set (split_ws [] cs)" by simp
      then show ?thesis using Cons.IH [of "[]"] by simp
    next
      case False
      with \<open>is_space c\<close> Cons.prems(2) have "t = cur \<or> t \<in> set (split_ws [] cs)" by simp
      then show ?thesis
      proof
        assume "t = cur"
        with False Cons.prems(1) show ?thesis by simp
      next
        assume "t \<in> set (split_ws [] cs)"
        then show ?thesis using Cons.IH [of "[]"] by simp
      qed
    qed
  next
    case False
    with Cons.prems(2) have "t \<in> set (split_ws (cur @ [c]) cs)" by simp
    moreover from False Cons.prems(1) have "\<forall>d\<in>set (cur @ [c]). \<not> is_space d" by simp
    ultimately show ?thesis using Cons.IH [of "cur @ [c]"] by blast
  qed
qed

lemma str_split_tokens:
  "t \<in> set (str_split s) \<Longrightarrow> t \<noteq> [] \<and> (\<forall>c\<in>set t. \<not> is_space c)"
  using split_ws_tokens [of "[]" t s] by (simp add: str_split_def)

lemma try_body_two_tokens:
  assumes "2 \<le> length (str_split s)"
  shows "try_body (PyStr s) = Inr (canonical_key s)"
proof -
  have "str_split s \<noteq> []" using assms by auto
  then have len: "0 < length (str_split s)" "1 < length (str_split s)" using assms by simp_all
  then have "str_split s ! 1 \<in> set (str_split s)" by simp
  then have ne: "0 < length (str_split s ! 1)" using str_split_tokens by blast
  then have hd: "str_split s ! 1 ! 0 = hd (str_split s ! 1)" by (simp add: hd_conv_nth)
  have a: "list_getitem (str_split s) 0 = Inr (str_split s ! 0)"
    using len(1) unfolding list_getitem_def by (rule if_P)
  have b: "list_getitem (str_split s) (Suc 0) = Inr (str_split s ! Suc 0)"
    using len(2) unfolding list_getitem_def by simp
  have c: "str_getitem (str_split s ! Suc 0) 0 = Inr [hd (str_split s ! Suc 0)]"
    using ne hd unfolding str_getitem_def by simp
  show ?thesis
    by (simp add: try_body_def py_split_def exn_bind_def a b c canonical_key_def Let_def)
qed

lemma try_body_no_token:
  assumes "str_split s = []"
  shows "try_body (PyStr s) = Inl (IndexError ''list index out of range'')"
  using assms by (simp add: try_body_def py_split_def exn_bind_def list_getitem_def)

lemma clean_loop_single:
  "length (str_split s) = 1 \<Longrightarrow> clean_loop (PyStr s # rest) st = clean_loop rest st"
  by (simp add: py_split_def)

lemma clean_loop_two:
  "2 \<le> length (str_split s) \<Longrightarrow> clean_loop (PyStr s # rest) st =
     clean_loop rest (st\<lparr>cleaned_authors := cleaned_authors st @ [canonical_key s]\<rparr>)"
  by (simp add: py_split_def try_body_two_tokens)

lemma clean_loop_none:
  "str_split s = [] \<Longrightarrow> clean_loop (PyStr s # rest) st =
     Inr (st\<lparr>stdout := stdout st @ [''list index out of range'', ''Error: '' @ s]\<rparr>)"
  by (simp add: py_split_def try_body_no_token report_def exn_message_def py_format_def)

lemma clean_loop_nonstr:
  "py_split name = Inl e \<Longrightarrow> clean_loop (name # rest) st = Inl e"
  by simp


lemma clean_loop_append:
  "\<forall>n\<in>set pre. str_split n \<noteq> [] \<Longrightarrow>
   clean_loop (map PyStr pre @ rest) st =
     clean_loop rest (st\<lparr>cleaned_authors := cleaned_authors st @ keys_of pre\<rparr>)"
proof (induction pre arbitrary: st)
  case Nil
  then show ?case by (simp add: keys_of_def well_tokenised_def)
next
  case (Cons n names)
  then have ne: "str_split n \<noteq> []" and rest: "\<forall>n\<in>set names. str_split n \<noteq> []" by simp_all
  show ?case
  proof (cases "length (str_split n) = 1")
    case True
    then have "keys_of (n # names) = keys_of names"
      by (simp add: keys_of_def well_tokenised_def)
    moreover have "clean_loop (map PyStr (n # names) @ rest) st = clean_loop (map PyStr names @ rest) st"
      using True by (simp add: clean_loop_single del: clean_loop.simps)
    ultimately show ?thesis using Cons.IH [OF rest, of st] by simp
  next
    case False
    from ne have "0 < length (str_split n)" by simp
    with False have two: "2 \<le> length (str_split n)" by arith
    then have k: "keys_of (n # names) = canonical_key n # keys_of names"
      by (simp add: keys_of_def well_tokenised_def)
    have "clean_loop (map PyStr (n # names) @ rest) st =
            clean_loop (map PyStr names @ rest)
              (st\<lparr>cleaned_authors := cleaned_authors st @ [canonical_key n]\<rparr>)"
      using two by (simp add: clean_loop_two del: clean_loop.simps)
    also have "\<dots> = clean_loop rest
              (st\<lparr>cleaned_authors := cleaned_authors st @ [canonical_key n] @ keys_of names\<rparr>)"
      using Cons.IH [OF rest] by simp
    finally show ?thesis by (simp add: k)
  qed
qed

lemma clean_loop_no_abort:
  assumes "\<forall>n\<in>set names. str_split n \<noteq> []"
  shows "clean_loop (map PyStr names) st =
           Inr (st\<lparr>cleaned_authors := cleaned_authors st @ keys_of names\<rparr>)"
  using clean_loop_append [OF assms, of "[]" st] by simp

lemma clean_loop_abort:
  assumes "\<forall>n\<in>set pre. str_split n \<noteq> []" and "str_split n = []"
  shows "clean_loop (map PyStr pre @ PyStr n # rest) st =
           Inr (st\<lparr>cleaned_authors := cleaned_authors st @ keys_of pre,
                    stdout := stdout st @ [''list index out of range'', ''Error: '' @ n]\<rparr>)"
  using clean_loop_append [OF assms(1), of "PyStr n # rest" st] assms(2)
  by (simp add: clean_loop_none del: clean_loop.simps)


text \<open>Three facts of the case tables, checked character by character.\<close>

lemma lower_char_idem_all: "\<forall>c::char. lower_char (lower_char c) = lower_char c"
  by code_simp


lemma lower_char_not_space_all:
  "\<forall>c::char. c \<noteq> CHR '' '' \<longrightarrow> lower_char c \<noteq> CHR '' ''"
  by code_simp

lemma lower_char_idem: "lower_char (lower_char c) = lower_char c"
  using lower_char_idem_all by blast


lemma lower_char_not_space: "c \<noteq> CHR '' '' \<Longrightarrow> lower_char c \<noteq> CHR '' ''"
  using lower_char_not_space_all by blast

lemma not_space_char: "\<not> is_space c \<Longrightarrow> c \<noteq> CHR '' ''"
  by (auto simp: is_space_def)

lemma str_lower_idem: "str_lower (str_lower s) = str_lower s"
  by (simp add: str_lower_def lower_char_idem)

lemma str_lower_no_space:
  assumes "\<forall>c\<in>set s. \<not> is_space c"
  shows "CHR '' '' \<notin> set (str_lower s)"
proof
  assume "CHR '' '' \<in> set (str_lower s)"
  then obtain c where c: "c \<in> set s" "lower_char c = CHR '' ''"
    by (auto simp: str_lower_def)
  from c(1) assms have "c \<noteq> CHR '' ''" using not_space_char by blast
  then have "lower_char c \<noteq> CHR '' ''" by (rule lower_char_not_space)
  with c(2) show False by simp
qed

lemma str_remove_spaces_lower:
  assumes "\<forall>c\<in>set s. \<not> is_space c"
  shows "str_remove_spaces (str_lower s) = str_lower s"
proof -
  have "\<forall>c\<in>set (str_lower s). c \<noteq> CHR '' ''"
    using str_lower_no_space [OF assms] by blast
  then show ?thesis unfolding str_remove_spaces_def by (rule filter_True)
qed

lemma canonical_key_two_tokens:
  assumes "2 \<le> length (str_split n)"
  shows "canonical_key n = str_lower (str_split n ! 0 @ [hd (str_split n ! 1)])"
    and "wellformed_key (canonical_key n)"
proof -
  let ?t0 = "str_split n ! 0" and ?t1 = "str_split n ! 1"
  have "str_split n \<noteq> []" using assms by auto
  then have "?t0 \<in> set (str_split n)" "?t1 \<in> set (str_split n)" using assms by simp_all
  then have t0: "?t0 \<noteq> []" "\<forall>c\<in>set ?t0. \<not> is_space c"
    and t1: "?t1 \<noteq> []" "\<forall>c\<in>set ?t1. \<not> is_space c"
    using str_split_tokens by blast+
  from t1 have "\<not> is_space (hd ?t1)" by simp
  with t0 have ns: "\<forall>c\<in>set (?t0 @ [hd ?t1]). \<not> is_space c" by simp
  show eq: "canonical_key n = str_lower (?t0 @ [hd ?t1])"
    unfolding canonical_key_def Let_def using ns by (rule str_remove_spaces_lower)
  have "CHR '' '' \<notin> set (str_lower (?t0 @ [hd ?t1]))"
    using ns by (rule str_lower_no_space)
  moreover have "2 \<le> length (str_lower (?t0 @ [hd ?t1]))"
    using t0(1) by (cases ?t0) (simp_all add: str_lower_def)
  ultimately show "wellformed_key (canonical_key n)"
    unfolding wellformed_key_def eq by (auto simp: str_lower_idem)
qed

lemma clean_loop_invariant:
  "clean_loop names st = Inr r \<Longrightarrow>
     \<exists>new. cleaned_authors r = cleaned_authors st @ new \<and> length new \<le> length names \<and>
           (\<forall>k\<in>set new. wellformed_key k)"
proof (induction names arbitrary: st)
  case Nil
  then show ?case by simp
next
  case (Cons name rest)
  show ?case
  proof (cases name)
    case (PyStr s)
    consider (none) "str_split s = []" | (one) "length (str_split s) = 1"
      | (two) "2 \<le> length (str_split s)"
      by (cases "str_split s") (auto simp: Suc_le_eq)
    then show ?thesis
    proof cases
      case none
      with Cons.prems PyStr have "cleaned_authors r = cleaned_authors st"
        by (auto simp add: clean_loop_none simp del: clean_loop.simps)
      then show ?thesis by simp
    next
      case one
      with Cons.prems PyStr have "clean_loop rest st = Inr r"
        by (simp add: clean_loop_single del: clean_loop.simps)
      from Cons.IH [OF this] show ?thesis by auto
    next
      case two
      with Cons.prems PyStr have
        "clean_loop rest (st\<lparr>cleaned_authors := cleaned_authors st @ [canonical_key s]\<rparr>) = Inr r"
        by (simp add: clean_loop_two del: clean_loop.simps)
      from Cons.IH [OF this] obtain new where
        new: "cleaned_authors r = cleaned_authors st @ canonical_key s # new"
          "length new \<le> length rest" "\<forall>k\<in>set new. wellformed_key k"
        by auto
      have "cleaned_authors r = cleaned_authors st @ (canonical_key s # new) \<and>
            length (canonical_key s # new) \<le> length (name # rest) \<and>
            (\<forall>k\<in>set (canonical_key s # new). wellformed_key k)"
        using new canonical_key_two_tokens(2) [OF two] by simp
      then show ?thesis by blast
    qed
  next
    case PyNone
    with Cons.prems show ?thesis by (simp add: py_split_def)
  next
    case PyNaN
    with Cons.prems show ?thesis by (simp add: py_split_def)
  qed
qed

subsection \<open>The Normalizer: results\<close>

text \<open>
  On a list of strings the Normalizer always returns: either it reaches the end of
  the list, or it stops at the first name that has no token at all.
\<close>

lemma clean_author_names_strings:
  "\<exists>r. clean_author_names (map PyStr names) = Inr r \<and>
       (stdout r = [] \<longrightarrow> cleaned_authors r = keys_of names)"
proof (cases "\<forall>n\<in>set names. str_split n \<noteq> []")
  case True
  then show ?thesis
    by (simp add: clean_author_names_def clean_loop_no_abort)
next
  case False
  then have "\<exists>n\<in>set names. str_split n = []" by simp
  from split_list_first_prop [OF this] obtain pre n rest where
    split: "names = pre @ n # rest" "str_split n = []" "\<forall>m\<in>set pre. str_split m \<noteq> []"
    by blast
  have "map PyStr names = map PyStr pre @ PyStr n # map PyStr rest"
    using split(1) by simp
  then show ?thesis
    using clean_loop_abort [OF split(3) split(2)]
    by (simp add: clean_author_names_def)
qed

text \<open>
  Names beyond ASCII: the no-break space U+00A0 separates tokens like any other
  whitespace, a name of whitespace only has no token, and lowering reaches the
  letters of Latin-1 (here the E with acute accent, U+00C9 to U+00E9).
\<close>

lemma clean_author_names_latin1:
  "clean_author_names
     [PyStr [CHR ''D'', CHR ''o'', CHR ''e'', CHR 0xA0, CHR ''J'', CHR ''.''], PyStr ''Roe R.''] =
     Inr \<lparr>cleaned_authors = [''doej'', ''roer''], stdout = []\<rparr> \<and>
   clean_author_names [PyStr [CHR 0xC9, CHR ''L'', CHR ''U'', CHR '' '', CHR ''P'', CHR ''.'']] =
     Inr \<lparr>cleaned_authors = [[CHR 0xE9, CHR ''l'', CHR ''u'', CHR ''p'']], stdout = []\<rparr> \<and>
   clean_author_names [PyStr [CHR 0xA0], PyStr []] =
     Inr \<lparr>cleaned_authors = [],
          stdout = [''list index out of range'', ''Error: '' @ [CHR 0xA0]]\<rparr>"
  by code_simp

text \<open>
  Claim C1, at the input where the code departs from it. The claim: a name that is
  not a string raises the missing-attribute condition, which the Normalizer catches;
  it prints a diagnostic, stops, and returns the keys found so far. The code: line 44
  calls \<open>name.split()\<close> before the \<open>try\<close> block is entered, so on the list
  \<open>['Doe J.', nan]\<close> (and on \<open>[None]\<close>) the AttributeError leaves the function and no
  list is returned.
\<close>

theorem clean_author_names_non_string_raises:
  "clean_author_names [PyStr ''Doe J.'', PyNaN] =
     Inl (AttributeError (no_attribute ''float'' ''split'')) \<and>
   clean_author_names [PyNone] = Inl (AttributeError (no_attribute ''NoneType'' ''split''))"
  by code_simp

text \<open>
  Claim C2 as the specification states it: on the list \<open>["Doe "]\<close> the Normalizer
  halts with a diagnostic, and the failure is fatal for the whole batch. It does
  neither: nothing is printed, and a name that follows is still processed.
\<close>

theorem doe_space_no_diagnostic_counterexample:
  "\<not> halted_with_diagnostic (clean_author_names [PyStr ''Doe '']) \<and>
   clean_author_names [PyStr ''Doe '', PyStr ''Smith J.''] =
     Inr \<lparr>cleaned_authors = [''smithj''], stdout = []\<rparr>"
  by code_simp

text \<open>
  Claim C2, amended: \<open>"Doe ".split()\<close> is the single token \<open>"Doe"\<close> (trailing
  whitespace gives no empty token), so the name is skipped like every single-token
  name: on \<open>["Doe "]\<close> the Normalizer returns the empty list and prints nothing, and
  in front of any other names it changes nothing of their processing.
\<close>

theorem doe_space_skipped_silently:
  "str_split ''Doe '' = [''Doe''] \<and>
   clean_author_names [PyStr ''Doe ''] = Inr \<lparr>cleaned_authors = [], stdout = []\<rparr> \<and>
   clean_author_names (PyStr ''Doe '' # rest) = clean_author_names rest"
proof -
  have tok: "str_split ''Doe '' = [''Doe'']" by code_simp
  then have "length (str_split ''Doe '') = 1" by simp
  then have "clean_loop (PyStr ''Doe '' # rest) st = clean_loop rest st" for rest st
    by (rule clean_loop_single)
  then show ?thesis using tok by (simp add: clean_author_names_def del: clean_loop.simps(2))
qed

text \<open>
  Claim C4: when the Normalizer processes a list of strings without abort (it prints
  nothing), its output is, in input order, the canonical key of every name that has at
  least two tokens, the key being \<open>lowercase(tokens[0] + tokens[1][0])\<close> with the
  spaces removed; and on a list of strings it always returns. In particular
  \<open>["Doe J.", "Smith J.", "Johnson A."]\<close> gives \<open>["doej", "smithj", "johnsona"]\<close>.
\<close>

theorem clean_author_names_canonical_keys:
  "(\<exists>r. clean_author_names (map PyStr names) = Inr r \<and>
        (stdout r = [] \<longrightarrow> cleaned_authors r = map canonical_key (well_tokenised names))) \<and>
   clean_author_names [PyStr ''Doe J.'', PyStr ''Smith J.'', PyStr ''Johnson A.''] =
     Inr \<lparr>cleaned_authors = [''doej'', ''smithj'', ''johnsona''], stdout = []\<rparr>"
proof
  show "\<exists>r. clean_author_names (map PyStr names) = Inr r \<and>
        (stdout r = [] \<longrightarrow> cleaned_authors r = map canonical_key (well_tokenised names))"
    using clean_author_names_strings [of names] by (simp add: keys_of_def)
  show "clean_author_names [PyStr ''Doe J.'', PyStr ''Smith J.'', PyStr ''Johnson A.''] =
     Inr \<lparr>cleaned_authors = [''doej'', ''smithj'', ''johnsona''], stdout = []\<rparr>"
    by code_simp
qed

theorem clean_author_names_canonical_keys_witness:
  "clean_author_names (map PyStr [''Doe J.'', ''SingleName'', ''Smith  Jane Q.'']) =
     Inr \<lparr>cleaned_authors = [''doej'', ''smithj''], stdout = []\<rparr> \<and>
   map canonical_key (well_tokenised [''Doe J.'', ''SingleName'', ''Smith  Jane Q.'']) =
     [''doej'', ''smithj'']"
proof -
  have run: "clean_author_names (map PyStr [''Doe J.'', ''SingleName'', ''Smith  Jane Q.'']) =
     Inr \<lparr>cleaned_authors = [''doej'', ''smithj''], stdout = []\<rparr>"
    by code_simp
  from clean_author_names_canonical_keys [of "[''Doe J.'', ''SingleName'', ''Smith  Jane Q.'']"]
  obtain r where r: "clean_author_names (map PyStr [''Doe J.'', ''SingleName'', ''Smith  Jane Q.'']) = Inr r"
    "stdout r = [] \<longrightarrow> cleaned_authors r =
       map canonical_key (well_tokenised [''Doe J.'', ''SingleName'', ''Smith  Jane Q.''])"
    by blast
  from r(1) run have "r = \<lparr>cleaned_authors = [''doej'', ''smithj''], stdout = []\<rparr>" by simp
  with r(2) have "map canonical_key (well_tokenised [''Doe J.'', ''SingleName'', ''Smith  Jane Q.'']) =
     [''doej'', ''smithj'']" by simp
  with run show ?thesis by simp
qed

text \<open>
  Claim C5: a name with exactly one token is dropped without a diagnostic and without
  leaving the loop: whatever the state, the loop goes on with the rest of the list in
  the very same state. In particular \<open>["SingleName", "Doe J."]\<close> gives \<open>["doej"]\<close>.
\<close>

theorem single_token_skipped:
  "(length (str_split n) = 1 \<longrightarrow>
      clean_loop (PyStr n # rest) st = clean_loop rest st \<and>
      clean_author_names (PyStr n # rest) = clean_author_names rest) \<and>
   clean_author_names [PyStr ''SingleName'', PyStr ''Doe J.''] =
     Inr \<lparr>cleaned_authors = [''doej''], stdout = []\<rparr>"
proof -
  have "clean_author_names [PyStr ''SingleName'', PyStr ''Doe J.''] =
     Inr \<lparr>cleaned_authors = [''doej''], stdout = []\<rparr>"
    by code_simp
  then show ?thesis
    by (simp add: clean_author_names_def clean_loop_single del: clean_loop.simps(2))
qed

theorem single_token_skipped_witness:
  "length (str_split ''SingleName'') = 1 \<and>
   clean_author_names (PyStr ''SingleName'' # [PyStr ''Doe J.'', PyStr ''Roe R.'']) =
     clean_author_names [PyStr ''Doe J.'', PyStr ''Roe R.'']"
proof -
  have len: "length (str_split ''SingleName'') = 1" by code_simp
  with single_token_skipped [of "''SingleName''" "[PyStr ''Doe J.'', PyStr ''Roe R.'']"]
  show ?thesis by blast
qed

text \<open>
  Claim C9: a string with no token at all (the empty string, or whitespace only) is
  not filtered out. At the first such name the loop takes the IndexError handler: it
  prints the exception and the name, and returns the keys of the names before it;
  nothing behind that name is looked at.
\<close>

theorem empty_name_halts:
  assumes "\<forall>m\<in>set pre. str_split m \<noteq> []" and "str_split n = []"
  shows "clean_author_names (map PyStr pre @ PyStr n # rest) =
           Inr \<lparr>cleaned_authors = map canonical_key (well_tokenised pre),
                stdout = [''list index out of range'', ''Error: '' @ n]\<rparr>"
  using clean_loop_abort [OF assms, of rest "\<lparr>cleaned_authors = [], stdout = []\<rparr>"]
  by (simp add: clean_author_names_def keys_of_def)

theorem empty_name_halts_witness:
  "str_split ''Doe J.'' \<noteq> [] \<and> str_split ''Solo'' \<noteq> [] \<and> str_split [] = [] \<and>
   clean_author_names (map PyStr [''Doe J.'', ''Solo''] @ PyStr [] # [PyStr ''Smith J.'', PyNone]) =
     Inr \<lparr>cleaned_authors = [''doej''], stdout = [''list index out of range'', ''Error: '']\<rparr>"
proof -
  have a1: "str_split ''Doe J.'' \<noteq> []" and a2: "str_split ''Solo'' \<noteq> []" by code_simp+
  then have a: "\<forall>m\<in>set [''Doe J.'', ''Solo'']. str_split m \<noteq> []" by simp
  have b: "str_split [] = []" by code_simp
  have c: "map canonical_key (well_tokenised [''Doe J.'', ''Solo'']) = [''doej'']" by code_simp
  from empty_name_halts [OF a b, of "[PyStr ''Smith J.'', PyNone]"] a1 a2 b c
  show ?thesis by simp
qed

text \<open>
  Claim C10: every string of a list the Normalizer returns is a well-formed key for
  the Aggregator (not empty, at least two characters, lower case, no space
  character), and the list is no longer than the input.
\<close>

theorem cleaned_authors_wellformed:
  assumes "clean_author_names names = Inr r"
  shows "(\<forall>k\<in>set (cleaned_authors r). wellformed_key k) \<and>
         length (cleaned_authors r) \<le> length names"
  using clean_loop_invariant [of names "\<lparr>cleaned_authors = [], stdout = []\<rparr>" r] assms
  by (auto simp: clean_author_names_def)

theorem cleaned_authors_wellformed_witness:
  "clean_author_names [PyStr ''Van Dyke R.'', PyStr ''Solo'', PyStr ''DOE J.''] =
     Inr \<lparr>cleaned_authors = [''vand'', ''doej''], stdout = []\<rparr> \<and>
   wellformed_key ''vand'' \<and> wellformed_key ''doej'' \<and>
   length [''vand'', ''doej''] \<le> length [PyStr ''Van Dyke R.'', PyStr ''Solo'', PyStr ''DOE J.'']"
proof -
  have run: "clean_author_names [PyStr ''Van Dyke R.'', PyStr ''Solo'', PyStr ''DOE J.''] =
     Inr \<lparr>cleaned_authors = [''vand'', ''doej''], stdout = []\<rparr>"
    by code_simp
  from cleaned_authors_wellformed [OF run] run show ?thesis by simp
qed

subsection \<open>The Aggregator, step by step\<close>











lemma format_name_empty: "format_name [] = Inl (IndexError ''string index out of range'')"
  by (simp add: format_name_def str_getitem_last_def exn_bind_def Let_def)

















subsection \<open>The Aggregator: results\<close>

text \<open>
  The Aggregator assumes keys that are not empty: on an empty key the expression
  \<open>name[-1]\<close> of line 90 raises, and no table is built.
\<close>

lemma create_author_count_dataframe_empty_key:
  "create_author_count_dataframe [''doej'', []] = Inl (IndexError ''string index out of range'')"
  by code_simp








subsection \<open>The Extractor\<close>

lemma length_split_sep: "length (split_sep sep cur s) = str_count sep s + 1"
proof (induction sep cur s rule: split_sep.induct)
  case (1 sep cur s)
  show ?case
  proof (cases "s = []")
    case True
    then show ?thesis by (subst split_sep.simps, subst str_count.simps) simp
  next
    case ne: False
    show ?thesis
    proof (cases "sep \<noteq> [] \<and> take (length sep) s = sep")
      case True
      with ne "1.IH"(1) show ?thesis
        by (subst split_sep.simps, subst str_count.simps) simp
    next
      case False
      with ne "1.IH"(2) show ?thesis
        by (subst split_sep.simps, subst str_count.simps) auto
    qed
  qed
qed

lemma split_sep_nonempty: "split_sep sep cur s \<noteq> []"
  using length_split_sep [of sep cur s] by auto

lemma str_join_Cons: "ps \<noteq> [] \<Longrightarrow> str_join sep (p # ps) = p @ sep @ str_join sep ps"
  by (cases ps) simp_all

lemma str_join_split_sep: "str_join sep (split_sep sep cur s) = cur @ s"
proof (induction sep cur s rule: split_sep.induct)
  case (1 sep cur s)
  show ?case
  proof (cases "s = []")
    case True
    then show ?thesis by (subst split_sep.simps) simp
  next
    case ne: False
    show ?thesis
    proof (cases "sep \<noteq> [] \<and> take (length sep) s = sep")
      case True
      then have "sep @ drop (length sep) s = s"
        using append_take_drop_id [of "length sep" s] by simp
      with ne True "1.IH"(1) show ?thesis
        by (subst split_sep.simps) (simp add: str_join_Cons split_sep_nonempty)
    next
      case False
      with ne "1.IH"(2) show ?thesis
        by (subst split_sep.simps) auto
    qed
  qed
qed

lemma extract_authors_eq:
  "extract_authors df = concat (map (split_sep '', '' []) (Authors df))"
  by (simp add: extract_authors_def explode_def series_str_split_def)

text \<open>
  Claim C6: the Extractor splits every field on \<open>", "\<close> and lays the pieces out in
  the order of the fields and, inside a field, in the order of the pieces; so the
  length of its output is the sum over the fields of the number of occurrences of
  \<open>", "\<close> plus one. The pieces of a field, joined by the delimiter, give the field
  back. This holds for every field, the empty string included.
\<close>

theorem extract_authors_length:
  "extract_authors df = concat (map (split_sep '', '' []) (Authors df)) \<and>
   length (extract_authors df) = sum_list (map (\<lambda>field. str_count '', '' field + 1) (Authors df)) \<and>
   map (str_join '', '') (map (split_sep '', '' []) (Authors df)) = Authors df"
proof -
  have "length (concat (map (split_sep '', '' []) fs)) =
          sum_list (map (\<lambda>field. str_count '', '' field + 1) fs)" for fs
    by (induction fs) (simp_all add: length_split_sep)
  moreover have "map (str_join '', '') (map (split_sep '', '' []) fs) = fs" for fs
    by (induction fs) (simp_all add: str_join_split_sep)
  ultimately show ?thesis by (simp add: extract_authors_eq)
qed

theorem extract_authors_length_witness:
  "extract_authors \<lparr>Authors = [''John Doe, Jane Smith, Adam Johnson'', ''Alice Williams, Bob Brown'']\<rparr> =
     [''John Doe'', ''Jane Smith'', ''Adam Johnson'', ''Alice Williams'', ''Bob Brown''] \<and>
   sum_list (map (\<lambda>field. str_count '', '' field + 1)
     [''John Doe, Jane Smith, Adam Johnson'', ''Alice Williams, Bob Brown'']) = 5"
proof -
  let ?df = "\<lparr>Authors = [''John Doe, Jane Smith, Adam Johnson'', ''Alice Williams, Bob Brown'']\<rparr>"
  have run: "extract_authors ?df =
     [''John Doe'', ''Jane Smith'', ''Adam Johnson'', ''Alice Williams'', ''Bob Brown'']"
    by code_simp
  with extract_authors_length [of ?df] show ?thesis by simp
qed

end
